theory Spec2Isabelle
  imports Main
begin

section \<open>Strings\<close>

text \<open>
  A Python \<open>str\<close> is a sequence of Unicode code points; \<open>len\<close> counts code points.
  The vocabulary holds code points outside Latin-1 (the SentencePiece marker U+2581),
  so a string is a list of code point numbers. The pattern lists of the script are
  all ASCII and are written as literals through \<open>asc\<close>.
\<close>

type_synonym ustr = "nat list"

definition asc :: "string \<Rightarrow> ustr" where
  "asc s = map of_char s"

text \<open>\<open>p in s\<close> on two strings: \<open>p\<close> occurs in \<open>s\<close> as a contiguous substring.\<close>

fun starts_with :: "'a list \<Rightarrow> 'a list \<Rightarrow> bool" where
  "starts_with [] s = True"
| "starts_with (x # p) [] = False"
| "starts_with (x # p) (y # s) = (x = y \<and> starts_with p s)"

fun contains :: "'a list \<Rightarrow> 'a list \<Rightarrow> bool" where
  "contains p [] = (p = [])"
| "contains p (y # s) = (starts_with p (y # s) \<or> contains p s)"

text \<open>
  \<open>s.replace(c, '')\<close> for a one-character \<open>c\<close> removes every occurrence of \<open>c\<close>.
\<close>

definition remove_char :: "nat \<Rightarrow> ustr \<Rightarrow> ustr" where
  "remove_char c s = filter (\<lambda>x. x \<noteq> c) s"

text \<open>
  \<open>s.strip()\<close> removes leading and trailing whitespace, whitespace being the code points
  for which \<open>str.isspace\<close> holds: U+0009..U+000D, U+001C..U+0020, U+0085, U+00A0, U+1680,
  U+2000..U+200A, U+2028, U+2029, U+202F, U+205F, U+3000.
\<close>

definition is_space :: "nat \<Rightarrow> bool" where
  "is_space c \<longleftrightarrow>
     (9 \<le> c \<and> c \<le> 13) \<or> (28 \<le> c \<and> c \<le> 32) \<or> c = 133 \<or> c = 160 \<or> c = 5760 \<or>
     (8192 \<le> c \<and> c \<le> 8202) \<or> c = 8232 \<or> c = 8233 \<or> c = 8239 \<or> c = 8287 \<or> c = 12288"

definition strip :: "ustr \<Rightarrow> ustr" where
  "strip s = rev (dropWhile is_space (rev (dropWhile is_space s)))"

text \<open>
  \<open>s.lower()\<close>. On a string of ASCII code points only, CPython maps \<open>A..Z\<close> to \<open>a..z\<close>
  and leaves every other code point alone. On any other string the result is given by
  the Unicode case tables, which are not part of the script: that mapping is the
  parameter \<open>uni\<close>.
\<close>

definition ascii_lower :: "nat \<Rightarrow> nat" where
  "ascii_lower c = (if 65 \<le> c \<and> c \<le> 90 then c + 32 else c)"

definition lower :: "(ustr \<Rightarrow> ustr) \<Rightarrow> ustr \<Rightarrow> ustr" where
  "lower uni s = (if list_all (\<lambda>c. c < 128) s then map ascii_lower s else uni s)"

text \<open>\<open>s.startswith(c)\<close> for a one-character \<open>c\<close>.\<close>

fun startswith :: "ustr \<Rightarrow> nat \<Rightarrow> bool" where
  "startswith [] c = False"
| "startswith (x # s) c = (x = c)"

section \<open>Pattern lists\<close>

definition rejection_base_patterns :: "ustr list" where
  "rejection_base_patterns = map asc [
     ''reject'', ''decline'', ''deny'', ''refuse'', ''disapprov'', ''dismiss'',
     ''disqualified'', ''ineligible'', ''inadequate'', ''insufficient'',
     ''unacceptable'', ''unsatisfactory'', ''inappropriate'', ''unsuitable'',
     ''fail'', ''unsuccessful'', ''unfavorable'', ''adverse'', ''poor'', ''weak'', ''deficient'',
     ''bad'', ''terrible'', ''awful'', ''horrible'', ''wrong'', ''incorrect'', ''false'',
     ''risky'', ''unsafe'', ''dangerous'', ''problematic'', ''concerning'', ''warning'', ''alert'',
     ''suspicious'', ''questionable'', ''doubtful'', ''uncertain'', ''unreliable'',
     ''default'', ''bankrupt'', ''insolvent'', ''delinquent'', ''overdue'', ''foreclos'',
     ''subprime'', ''toxic'', ''junk'', ''distressed'', ''troubled'', ''failing'',
     ''incompetent'', ''incapable'', ''unable'', ''lacking'', ''missing'', ''absent'',
     ''limited'', ''restricted'', ''constrained'', ''impaired'', ''compromised'',
     ''impossible'', ''forbidden'', ''prohibited'', ''banned'', ''blocked'', ''terminated'',
     ''cancelled'', ''stopped'', ''halted'', ''suspended'', ''withdrawn'', ''revoked'',
     ''no'', ''not'', ''never'', ''none'', ''nothing'', ''nobody'', ''nowhere'',
     ''cannot'', ''can't'', ''wont'', ''won't'', ''shouldnt'', ''shouldn't'',
     ''issue'', ''problem'', ''trouble'', ''difficulty'', ''challenge'', ''obstacle'',
     ''barrier'', ''impediment'', ''hurdle'', ''complication'', ''error'', ''mistake'',
     ''severe'', ''serious'', ''major'', ''critical'', ''significant'', ''substantial'',
     ''extreme'', ''excessive'', ''overwhelming'', ''unmanageable'']"

definition negation_prefixes :: "ustr list" where
  "negation_prefixes = map asc
     [''un'', ''in'', ''non'', ''dis'', ''im'', ''ir'', ''il'', ''mis'', ''mal'', ''anti'']"

definition positive_stems :: "ustr list" where
  "positive_stems = map asc [
     ''qualified'', ''suitable'', ''acceptable'', ''favorable'', ''viable'', ''approved'',
     ''adequate'', ''sufficient'', ''satisfactory'', ''appropriate'', ''worthy'', ''deserving'',
     ''reliable'', ''trustworthy'', ''stable'', ''secure'', ''sound'', ''healthy'', ''strong'',
     ''competitive'', ''attractive'', ''appealing'', ''desirable'', ''optimal'', ''ideal'',
     ''profitable'', ''beneficial'', ''advantageous'', ''valuable'', ''effective'']"

text \<open>
  The base list copied, then one pattern \<open>prefix + stem\<close> appended for each prefix
  (outer loop) and each stem (inner loop).
\<close>

definition rejection_patterns :: "ustr list" where
  "rejection_patterns =
     rejection_base_patterns @
     concat (map (\<lambda>prefix. map (\<lambda>stem. prefix @ stem) positive_stems) negation_prefixes)"

definition rejection_exact_matches :: "ustr list" where
  "rejection_exact_matches = map asc
     [''no'', ''bad'', ''never'', ''cannot'', ''can't'', ''negative'', ''void'']"

definition pending_patterns :: "ustr list" where
  "pending_patterns = map asc [
     ''pending'', ''review'', ''reviewing'', ''under'', ''consideration'', ''consider'',
     ''evaluat'', ''assess'', ''analyzing'', ''processing'', ''investigat'',
     ''wait'', ''waiting'', ''hold'', ''holding'', ''delay'', ''defer'', ''postpone'',
     ''suspend'', ''pause'', ''interim'', ''temporary'', ''provisional'',
     ''check'', ''checking'', ''verify'', ''verifying'', ''confirm'', ''confirming'',
     ''validate'', ''research'', ''investigate'', ''examine'', ''audit'',
     ''undecided'', ''uncertain'', ''unclear'', ''tbd'', ''determining'',
     ''deliberat'', ''contemplat'', ''weighing'', ''studying'',
     ''conditional'', ''tentative'', ''preliminary'', ''partial'', ''incomplete'',
     ''ongoing'', ''active'', ''open'', ''progress'']"

definition approval_base_stems :: "ustr list" where
  "approval_base_stems = map asc [
     ''approv'', ''accept'', ''grant'', ''author'', ''sanction'', ''endorse'',
     ''qualif'', ''eligib'', ''suitab'', ''appropriat'', ''adequat'', ''satisfactor'',
     ''confirm'', ''agree'', ''consent'', ''ratif'', ''validat'', ''certif'', ''pass'', ''success'',
     ''excellent'', ''outstanding'', ''superior'', ''strong'', ''solid'', ''favorab'', ''positiv'',
     ''creditworth'', ''reliabl'', ''trustworth'', ''stab'', ''secur'', ''sound'', ''viabl'', ''profit'',
     ''merit'', ''earn'', ''deserv'', ''warrant'', ''justif'', ''exceed'', ''meet'']"

definition approval_exact_matches :: "ustr list" where
  "approval_exact_matches = map asc
     [''yes'', ''ok'', ''okay'', ''fine'', ''good'', ''right'', ''perfect'', ''ideal'']"

definition negated_indicators :: "ustr list" where
  "negated_indicators = map asc [''un'', ''in'', ''dis'', ''non'', ''im'', ''not'', ''never'']"

section \<open>Classification of one token\<close>

datatype category = Approval | Rejection | Pending

text \<open>
  \<open>clean_token = token_str.replace(m1, '').replace(m2, '').strip()\<close>, where
  \<open>m1\<close> is the SentencePiece marker U+2581 (9601) and \<open>m2\<close> the byte-level BPE marker
  U+0120 (288).
\<close>

definition clean :: "ustr \<Rightarrow> ustr" where
  "clean token_str = strip (remove_char 288 (remove_char 9601 token_str))"

text \<open>\<open>any(pattern in token_lower for pattern in patterns)\<close>\<close>

definition any_in :: "ustr list \<Rightarrow> ustr \<Rightarrow> bool" where
  "any_in patterns token_lower = list_ex (\<lambda>pattern. contains pattern token_lower) patterns"

text \<open>
  The checks of the loop body that follow the skip test, in their order: the list the
  entry is appended to before \<open>continue\<close>, or \<open>None\<close> when the iteration ends without
  appending.
\<close>

definition categorize :: "ustr \<Rightarrow> ustr \<Rightarrow> category option" where
  "categorize clean_token token_lower =
     (if clean_token \<in> set rejection_exact_matches \<or> any_in rejection_patterns token_lower
      then Some Rejection
      else if any_in pending_patterns token_lower
      then Some Pending
      else if clean_token \<in> set approval_exact_matches
      then Some Approval
      else if any_in approval_base_stems token_lower
      then (if any_in negated_indicators token_lower then None else Some Approval)
      else None)"

text \<open>
  The body of the scan loop for one vocabulary entry, from the cleaning of the token
  on. \<open>60\<close> is \<open><\<close> and \<open>91\<close> is \<open>[\<close>.
\<close>

definition classify :: "(ustr \<Rightarrow> ustr) \<Rightarrow> ustr \<Rightarrow> category option" where
  "classify uni token_str =
     (let clean_token = clean token_str;
          token_lower = lower uni clean_token
      in if length clean_token < 2 \<or> startswith token_str 60 \<or> startswith token_str 91
         then None
         else categorize clean_token token_lower)"

section \<open>The scan over the vocabulary\<close>

text \<open>
  \<open>tokenizer.vocab\<close> is a dict from token string to token id: an association list in the
  dict's iteration order (a dict has each key once, so \<open>len(vocab)\<close> is its length).
  Nothing in the script requires the ids to be distinct or to lie in \<open>range(len(vocab))\<close>.
\<close>

type_synonym vocab = "(ustr \<times> int) list"

text \<open>
  \<open>id_to_token = {v: k for k, v in vocab.items()}\<close>: when two tokens share an id, the
  one later in iteration order stays.
\<close>

definition id_to_token :: "vocab \<Rightarrow> int \<Rightarrow> ustr option" where
  "id_to_token vocab = map_of (rev (map (\<lambda>(k, v). (v, k)) vocab))"

text \<open>An element of a result list: \<open>(token_id, token_str, clean_token)\<close>.\<close>

type_synonym entry = "int \<times> ustr \<times> ustr"

text \<open>
  The three lists the loop appends to, in the order the function returns them:
  \<open>(approval_tokens, rejection_tokens, pending_tokens)\<close>.
\<close>

type_synonym buckets = "entry list \<times> entry list \<times> entry list"

text \<open>One iteration of \<open>for token_id in range(vocab_size)\<close>.\<close>

definition scan_step :: "(ustr \<Rightarrow> ustr) \<Rightarrow> (int \<Rightarrow> ustr option) \<Rightarrow> buckets \<Rightarrow> int \<Rightarrow> buckets" where
  "scan_step uni idmap acc token_id =
     (case acc of (approval_tokens, rejection_tokens, pending_tokens) \<Rightarrow>
        (case idmap token_id of
           None \<Rightarrow> acc
         | Some token_str \<Rightarrow>
             (case classify uni token_str of
                None \<Rightarrow> acc
              | Some Rejection \<Rightarrow>
                  (approval_tokens,
                   rejection_tokens @ [(token_id, token_str, clean token_str)],
                   pending_tokens)
              | Some Pending \<Rightarrow>
                  (approval_tokens,
                   rejection_tokens,
                   pending_tokens @ [(token_id, token_str, clean token_str)])
              | Some Approval \<Rightarrow>
                  (approval_tokens @ [(token_id, token_str, clean token_str)],
                   rejection_tokens,
                   pending_tokens))))"

definition find_approval_rejection_tokens :: "(ustr \<Rightarrow> ustr) \<Rightarrow> vocab \<Rightarrow> buckets" where
  "find_approval_rejection_tokens uni vocab =
     foldl (scan_step uni (id_to_token vocab)) ([], [], []) (map int [0..<length vocab])"

text \<open>
  \<open>approval_token_ids = [token_id for token_id, _, _ in approval_tokens]\<close>, and the same
  for the other two lists.
\<close>

type_synonym ids = "int list \<times> int list \<times> int list"

definition token_ids :: "buckets \<Rightarrow> ids" where
  "token_ids toks =
     (case toks of (approval_tokens, rejection_tokens, pending_tokens) \<Rightarrow>
        (map fst approval_tokens, map fst rejection_tokens, map fst pending_tokens))"

section \<open>The script: cache lookup, regeneration, detail file\<close>

text \<open>
  What stands at the cache path, as \<open>np.load\<close> sees it: a directory, a file it cannot
  read, or an archive of named integer arrays. \<open>os.path.exists\<close> holds of all three.
\<close>

datatype npz = Directory | Unreadable | Arrays "(string \<times> int list) list"

text \<open>
  One \<open>f.write\<close> to the detail file: the title line, the line of fifty \<open>=\<close>, a section
  heading, or one line \<open>id: 'token_str' -> 'clean_token'\<close>.
\<close>

datatype chunk = Title | Rule | Section category | Entry int ustr ustr

text \<open>
  The two paths under \<open>DATA_PATH\<close>; \<open>None\<close> is a path at which nothing exists.
  \<open>cache_removable\<close> says whether the process may unlink the cache path.
\<close>

record files =
  cache_file :: "npz option"
  cache_removable :: bool
  detail_file :: "chunk list option"

datatype error = NameError string | TokenizerLoadError | OSError

text \<open>
  What a run depends on besides the files: whether \<open>DATA_PATH\<close> is bound in the
  namespace the script runs in, the vocabulary \<open>AutoTokenizer.from_pretrained\<close> gives
  (\<open>None\<close> when it raises), and the Unicode lower-casing. No other name of the script is
  bound before it runs; console output is left out.
\<close>

record env =
  data_path_defined :: bool
  pretrained_vocab :: "vocab option"
  unicode_lower :: "ustr \<Rightarrow> ustr"

text \<open>
  The three subscripts and \<open>tolist()\<close> calls of the \<open>try\<close> block; \<open>None\<close> when any of
  them raises.
\<close>

fun np_load :: "npz \<Rightarrow> ids option" where
  "np_load Directory = None"
| "np_load Unreadable = None"
| "np_load (Arrays kv) =
     (case map_of kv ''approval_ids'' of
        None \<Rightarrow> None
      | Some approval_token_ids \<Rightarrow>
          (case map_of kv ''rejection_ids'' of
             None \<Rightarrow> None
           | Some rejection_token_ids \<Rightarrow>
               (case map_of kv ''pending_ids'' of
                  None \<Rightarrow> None
                | Some pending_token_ids \<Rightarrow>
                    Some (approval_token_ids, rejection_token_ids, pending_token_ids))))"

definition np_savez :: "ids \<Rightarrow> npz" where
  "np_savez i =
     (case i of (approval_token_ids, rejection_token_ids, pending_token_ids) \<Rightarrow>
        Arrays [(''approval_ids'', approval_token_ids),
                (''rejection_ids'', rejection_token_ids),
                (''pending_ids'', pending_token_ids)])"

text \<open>
  \<open>os.remove(token_cache_file)\<close>: the file is gone, or \<open>OSError\<close> is raised and the path
  stays as it was, when the path is a directory or the process may not unlink it.
\<close>

definition os_remove :: "files \<Rightarrow> error + files" where
  "os_remove fs =
     (if cache_removable fs \<and> cache_file fs \<noteq> Some Directory
      then Inr (fs\<lparr>cache_file := None\<rparr>)
      else Inl OSError)"

text \<open>
  \<open>if os.path.exists(token_cache_file): try: ... except Exception: os.remove(...)\<close>.
  The first component is the loaded id lists, \<open>Inr None\<close> standing for
  \<open>approval_token_ids = None\<close>, or the error \<open>os.remove\<close> raises inside the handler,
  which nothing catches.
\<close>

definition cache_lookup :: "files \<Rightarrow> (error + ids option) \<times> files" where
  "cache_lookup fs =
     (case cache_file fs of
        None \<Rightarrow> (Inr None, fs)
      | Some c \<Rightarrow>
          (case np_load c of
             Some i \<Rightarrow> (Inr (Some i), fs)
           | None \<Rightarrow>
               (case os_remove fs of
                  Inl err \<Rightarrow> (Inl err, fs)
                | Inr fs1 \<Rightarrow> (Inr None, fs1))))"

text \<open>
  The block under \<open>if ... approval_token_ids is None\<close>: the scan, the id lists, the
  fresh cache. It binds \<open>approval_tokens\<close>, \<open>rejection_tokens\<close> and \<open>pending_tokens\<close>.
\<close>

definition regenerate :: "(ustr \<Rightarrow> ustr) \<Rightarrow> vocab \<Rightarrow> files \<Rightarrow> buckets \<times> ids \<times> files" where
  "regenerate uni vocab fs =
     (let toks = find_approval_rejection_tokens uni vocab;
          i = token_ids toks
      in (toks, i, fs\<lparr>cache_file := Some (np_savez i)\<rparr>))"

definition entries :: "entry list \<Rightarrow> chunk list" where
  "entries es = map (\<lambda>(token_id, token_str, clean_token). Entry token_id token_str clean_token) es"

text \<open>
  What the \<open>with\<close> block writes when it runs to its end: the two header lines, then
  each section heading followed by the entries of its list, in list order.
\<close>

definition detail_listing :: "buckets \<Rightarrow> chunk list" where
  "detail_listing toks =
     (case toks of (approval_tokens, rejection_tokens, pending_tokens) \<Rightarrow>
        [Title, Rule, Section Approval] @ entries approval_tokens @
        [Section Rejection] @ entries rejection_tokens @
        [Section Pending] @ entries pending_tokens)"

text \<open>
  The block under \<open>if not os.path.exists(detailed_cache_file)\<close>. Its first argument is
  the binding of the three token lists, \<open>None\<close> when the names are unbound: the file is
  opened for writing and three chunks are written before \<open>approval_tokens\<close> is read,
  and the \<open>with\<close> statement closes the file when the error leaves it.
\<close>

definition audit_dump :: "buckets option \<Rightarrow> files \<Rightarrow> error option \<times> files" where
  "audit_dump toks fs =
     (case detail_file fs of
        Some d \<Rightarrow> (None, fs)
      | None \<Rightarrow>
          (case toks of
             None \<Rightarrow>
               (Some (NameError ''approval_tokens''),
                fs\<lparr>detail_file := Some [Title, Rule, Section Approval]\<rparr>)
           | Some bound \<Rightarrow>
               (None, fs\<lparr>detail_file := Some (detail_listing bound)\<rparr>)))"

text \<open>
  One run of the script: the error that ends it or the three id lists it ends with,
  and the files it leaves.
\<close>

definition run :: "env \<Rightarrow> files \<Rightarrow> (error + ids) \<times> files" where
  "run e fs =
     (if \<not> data_path_defined e then (Inl (NameError ''DATA_PATH''), fs)
      else
        (case pretrained_vocab e of
           None \<Rightarrow> (Inl TokenizerLoadError, fs)
         | Some vocab \<Rightarrow>
             (case cache_lookup fs of
                (Inl err, fs1) \<Rightarrow> (Inl err, fs1)
              | (Inr (Some i), fs1) \<Rightarrow>
                  (case audit_dump None fs1 of
                     (Some err, fs2) \<Rightarrow> (Inl err, fs2)
                   | (None, fs2) \<Rightarrow> (Inr i, fs2))
              | (Inr None, fs1) \<Rightarrow>
                  (case regenerate (unicode_lower e) vocab fs1 of
                     (toks, i, fs2) \<Rightarrow>
                       (case audit_dump (Some toks) fs2 of
                          (Some err, fs3) \<Rightarrow> (Inl err, fs3)
                        | (None, fs3) \<Rightarrow> (Inr i, fs3))))))"

section \<open>Auxiliary notions for the proofs\<close>

text \<open>The list an id is appended to by its iteration of the loop, if any.\<close>

definition verdict :: "(ustr \<Rightarrow> ustr) \<Rightarrow> (int \<Rightarrow> ustr option) \<Rightarrow> int \<Rightarrow> category option" where
  "verdict uni idmap token_id =
     (case idmap token_id of None \<Rightarrow> None | Some token_str \<Rightarrow> classify uni token_str)"

text \<open>The entries the loop appends to the list of category \<open>c\<close> while it runs through \<open>is\<close>.\<close>

definition bucket :: "(ustr \<Rightarrow> ustr) \<Rightarrow> (int \<Rightarrow> ustr option) \<Rightarrow> category \<Rightarrow> int list \<Rightarrow> entry list" where
  "bucket uni idmap c is =
     concat (map (\<lambda>token_id.
       (case idmap token_id of
          None \<Rightarrow> []
        | Some token_str \<Rightarrow>
            if classify uni token_str = Some c
            then [(token_id, token_str, clean token_str)] else [])) is)"

section \<open>A small vocabulary\<close>

text \<open>
  Seven entries in id order: a control token, three words behind the SentencePiece
  marker, a one-letter token, a bare word and a two-letter word behind the marker.
\<close>

definition example_vocab :: vocab where
  "example_vocab =
     [(asc ''<pad>'', 0),
      (9601 # asc ''unqualified'', 1),
      (9601 # asc ''reviewing'', 2),
      (9601 # asc ''approved'', 3),
      (asc ''a'', 4),
      (asc ''earning'', 5),
      (9601 # asc ''no'', 6)]"

definition example_env :: env where
  "example_env =
     \<lparr>data_path_defined = True, pretrained_vocab = Some example_vocab, unicode_lower = id\<rparr>"

section \<open>The scan as three filters\<close>

text \<open>
  The loop only ever appends, so each result list is the sublist of the visited ids
  whose iteration chose that list.
\<close>

lemma bucket_Nil: "bucket uni idmap c [] = []"
  by (simp add: bucket_def)

lemma bucket_Cons:
  "bucket uni idmap c (i # is) =
     (case idmap i of None \<Rightarrow> [] | Some t \<Rightarrow>
        if classify uni t = Some c then [(i, t, clean t)] else []) @ bucket uni idmap c is"
  by (simp add: bucket_def)

lemma scan_step_bucket:
  "scan_step uni idmap (a, r, p) i =
     (a @ bucket uni idmap Approval [i],
      r @ bucket uni idmap Rejection [i],
      p @ bucket uni idmap Pending [i])"
  by (simp add: scan_step_def bucket_def split: option.splits category.splits)

lemma foldl_scan_step:
  "foldl (scan_step uni idmap) (a, r, p) is =
     (a @ bucket uni idmap Approval is,
      r @ bucket uni idmap Rejection is,
      p @ bucket uni idmap Pending is)"
proof (induction "is" arbitrary: a r p)
  case Nil
  show ?case by (simp add: bucket_Nil)
next
  case (Cons i "is")
  have "foldl (scan_step uni idmap) (a, r, p) (i # is) =
        foldl (scan_step uni idmap) (scan_step uni idmap (a, r, p) i) is"
    by simp
  also have "\<dots> = (a @ bucket uni idmap Approval (i # is),
                    r @ bucket uni idmap Rejection (i # is),
                    p @ bucket uni idmap Pending (i # is))"
    unfolding scan_step_bucket Cons.IH by (simp add: bucket_def)
  finally show ?case .
qed

lemma ids_bucket:
  "map fst (bucket uni idmap c is) = filter (\<lambda>i. verdict uni idmap i = Some c) is"
  by (induction "is") (auto simp: bucket_Nil bucket_Cons verdict_def split: option.splits)

lemma token_ids_scan:
  "token_ids (find_approval_rejection_tokens uni vocab) =
     (filter (\<lambda>i. verdict uni (id_to_token vocab) i = Some Approval) (map int [0..<length vocab]),
      filter (\<lambda>i. verdict uni (id_to_token vocab) i = Some Rejection) (map int [0..<length vocab]),
      filter (\<lambda>i. verdict uni (id_to_token vocab) i = Some Pending) (map int [0..<length vocab]))"
  by (simp add: find_approval_rejection_tokens_def foldl_scan_step token_ids_def ids_bucket)

lemma strictly_increasing_range: "sorted_wrt (<) (map int [0..<n])"
  by (simp add: sorted_wrt_map)

lemma strictly_increasing_filter: "sorted_wrt (<) (filter P (map int [0..<n]))"
  by (rule sorted_wrt_filter [OF strictly_increasing_range])

section \<open>Invariants of the scan\<close>

text \<open>
  C1. For every vocabulary, the three id lists of the classification scan (approval,
  rejection, pending) are pairwise disjoint: no token id is in more than one of them.
\<close>

theorem scan_lists_disjoint:
  "(case token_ids (find_approval_rejection_tokens uni vocab) of
      (approval_token_ids, rejection_token_ids, pending_token_ids) \<Rightarrow>
        set approval_token_ids \<inter> set rejection_token_ids = {} \<and>
        set approval_token_ids \<inter> set pending_token_ids = {} \<and>
        set rejection_token_ids \<inter> set pending_token_ids = {})"
  unfolding token_ids_scan by auto

text \<open>
  C10. Each of the three id lists of the scan is strictly increasing, so sorted
  ascending and free of duplicates: ids are visited from \<open>0\<close> to \<open>vocab_size - 1\<close> and
  each is appended at most once.
\<close>

theorem scan_lists_strictly_increasing:
  "(case token_ids (find_approval_rejection_tokens uni vocab) of
      (approval_token_ids, rejection_token_ids, pending_token_ids) \<Rightarrow>
        sorted_wrt (<) approval_token_ids \<and>
        sorted_wrt (<) rejection_token_ids \<and>
        sorted_wrt (<) pending_token_ids)"
  unfolding token_ids_scan by (simp add: strictly_increasing_filter)

section \<open>Substring tests on ASCII literals\<close>

text \<open>
  \<open>asc\<close> is injective, so a test on two literals can be decided on the characters.
\<close>

lemma starts_with_map: "inj f \<Longrightarrow> starts_with (map f p) (map f s) = starts_with p s"
  by (induction p s rule: starts_with.induct) (auto simp: inj_eq)

lemma contains_map: "inj f \<Longrightarrow> contains (map f p) (map f s) = contains p s"
proof (induction s)
  case Nil then show ?case by simp
next
  case (Cons y s)
  have "starts_with (map f p) (map f (y # s)) = starts_with p (y # s)"
    using Cons.prems by (rule starts_with_map)
  then show ?case using Cons by simp
qed

lemma inj_of_char_nat: "inj (of_char :: char \<Rightarrow> nat)"
  by (rule injI) simp

lemma contains_asc: "contains (asc p) (asc s) = contains p s"
  unfolding asc_def by (rule contains_map [OF inj_of_char_nat])

lemma asc_eq_iff: "asc p = asc s \<longleftrightarrow> p = s"
  unfolding asc_def by (rule inj_map_eq_map [OF inj_of_char_nat])

lemma asc_mem_iff: "asc t \<in> set (map asc L) \<longleftrightarrow> t \<in> set L"
  by (auto simp: asc_eq_iff)

lemma asc_append: "asc p @ asc s = asc (p @ s)"
  by (simp add: asc_def)

lemma cross_asc:
  "concat (map (\<lambda>prefix. map (\<lambda>stem. prefix @ stem) (map asc S)) (map asc P)) =
   map asc (concat (map (\<lambda>prefix. map (\<lambda>stem. prefix @ stem) S) P))"
  by (simp add: map_concat comp_def asc_append)

lemma any_in_asc: "any_in (map asc L) (asc t) = list_ex (\<lambda>p. contains p t) L"
  by (simp add: any_in_def list_ex_iff contains_asc)

lemma filter_asc:
  "filter (\<lambda>p. contains p (asc t)) (map asc L) = map asc (filter (\<lambda>p. contains p t) L)"
  by (simp add: filter_map comp_def contains_asc)

lemmas pattern_defs =
  rejection_base_patterns_def negation_prefixes_def positive_stems_def
  pending_patterns_def approval_base_stems_def negated_indicators_def
  rejection_exact_matches_def approval_exact_matches_def

section \<open>Cleaning and the skip test\<close>

lemma strip_keeps_head:
  assumes "\<not> is_space c"
  shows "strip (c # s) = c # rev (dropWhile is_space (rev s))"
proof -
  have "dropWhile is_space (rev s @ [c]) = dropWhile is_space (rev s) @ [c]"
    using assms by (simp add: dropWhile_append)
  then show ?thesis using assms by (simp add: strip_def)
qed

lemma clean_keeps_head:
  assumes "startswith tok c" and "\<not> is_space c" and "c \<noteq> 9601" and "c \<noteq> 288"
  shows "startswith (clean tok) c"
proof (cases tok)
  case Nil
  with assms(1) show ?thesis by simp
next
  case (Cons x s)
  with assms(1) have "x = c" by simp
  with Cons assms(2-4) show ?thesis
    by (simp add: clean_def remove_char_def strip_keeps_head)
qed

lemma clean_not_special:
  assumes "clean tok = asc (x # w)" and "x \<noteq> CHR ''<''" and "x \<noteq> CHR ''[''"
  shows "\<not> startswith tok 60 \<and> \<not> startswith tok 91"
proof -
  have a: "\<not> startswith (asc (x # w)) 60"
    using assms(2) of_char_eq_iff [of x "CHR ''<''", where ?'a = nat] by (simp add: asc_def)
  have b: "\<not> startswith (asc (x # w)) 91"
    using assms(3) of_char_eq_iff [of x "CHR ''[''", where ?'a = nat] by (simp add: asc_def)
  have "startswith tok 60 \<Longrightarrow> startswith (clean tok) 60"
    by (rule clean_keeps_head) (simp_all add: is_space_def)
  moreover have "startswith tok 91 \<Longrightarrow> startswith (clean tok) 91"
    by (rule clean_keeps_head) (simp_all add: is_space_def)
  ultimately show ?thesis using a b assms(1) by auto
qed

lemma classify_skipped:
  "startswith tok 60 \<or> startswith tok 91 \<or> length (clean tok) < 2 \<Longrightarrow> classify uni tok = None"
  by (auto simp: classify_def Let_def)

lemma classify_kept:
  "\<not> startswith tok 60 \<Longrightarrow> \<not> startswith tok 91 \<Longrightarrow> 2 \<le> length (clean tok) \<Longrightarrow>
   classify uni tok = categorize (clean tok) (lower uni (clean tok))"
  by (simp add: classify_def Let_def)

lemma int_range_mem: "i \<in> set (map int [0..<n]) \<longleftrightarrow> 0 \<le> i \<and> i < int n"
proof
  assume "i \<in> set (map int [0..<n])"
  then show "0 \<le> i \<and> i < int n" by auto
next
  assume "0 \<le> i \<and> i < int n"
  then have "nat i \<in> set [0..<n]" and "int (nat i) = i" by auto
  then show "i \<in> set (map int [0..<n])" by (metis image_eqI set_map)
qed

lemma only_pattern:
  assumes "list_all (\<lambda>p. p = x \<or> \<not> contains p t) L"
  shows "\<not> any_in (removeAll (asc x) (map asc L)) (asc t)"
proof -
  have "removeAll (asc x) (map asc L) = map asc (removeAll x L)"
    by (induction L) (auto simp: asc_eq_iff)
  then show ?thesis
    using assms by (auto simp: any_in_asc list_all_iff list_ex_iff)
qed

lemma classify_ascii:
  assumes "clean tok = asc c" and "lower uni (asc c) = asc l"
    and "\<not> startswith tok 60 \<and> \<not> startswith tok 91"
    and "categorize (asc c) (asc l) = r" and "2 \<le> length c"
  shows "classify uni tok = r"
proof -
  have "2 \<le> length (clean tok)" using assms(1,5) by (simp add: asc_def)
  then have "classify uni tok = categorize (clean tok) (lower uni (clean tok))"
    using assms(3) by (simp add: classify_kept)
  then show ?thesis using assms(1,2,4) by simp
qed

lemmas eval_patterns =
  rejection_patterns_def pattern_defs cross_asc map_append [symmetric] any_in_asc asc_mem_iff

lemmas eval_clean = clean_def strip_def remove_char_def is_space_def asc_def

lemmas eval_lower = lower_def ascii_lower_def asc_def

section \<open>Short negative words\<close>

lemma clean_know: "clean (asc ''know'') = asc ''know''"
  by (simp add: eval_clean)

lemma lower_know: "lower uni (asc ''know'') = asc ''know''"
  by (simp add: eval_lower)

lemma special_know: "\<not> startswith (asc ''know'') 60 \<and> \<not> startswith (asc ''know'') 91"
  by (simp add: asc_def)

lemma categorize_know: "categorize (asc ''know'') (asc ''know'') = Some Rejection"
  unfolding categorize_def eval_patterns by simp

lemma exact_know: "asc ''know'' \<notin> set rejection_exact_matches"
  unfolding eval_patterns by simp

lemma only_no_in_know: "\<not> any_in (removeAll (asc ''no'') rejection_patterns) (asc ''know'')"
  unfolding eval_patterns by (rule only_pattern) simp

lemma no_is_pattern: "asc ''no'' \<in> set rejection_base_patterns"
  unfolding eval_patterns by simp

lemma clean_badge: "clean (asc ''badge'') = asc ''badge''"
  by (simp add: eval_clean)

lemma lower_badge: "lower uni (asc ''badge'') = asc ''badge''"
  by (simp add: eval_lower)

lemma special_badge: "\<not> startswith (asc ''badge'') 60 \<and> \<not> startswith (asc ''badge'') 91"
  by (simp add: asc_def)

lemma categorize_badge: "categorize (asc ''badge'') (asc ''badge'') = Some Rejection"
  unfolding categorize_def eval_patterns by simp

lemma exact_badge: "asc ''badge'' \<notin> set rejection_exact_matches"
  unfolding eval_patterns by simp

lemma only_bad_in_badge: "\<not> any_in (removeAll (asc ''bad'') rejection_patterns) (asc ''badge'')"
  unfolding eval_patterns by (rule only_pattern) simp

text \<open>
  C2. The seven short negative words are claimed to match by equality with the cleaned
  token only. Five of them (\<open>no\<close>, \<open>bad\<close>, \<open>never\<close>, \<open>cannot\<close>, \<open>can't\<close>) are also in
  \<open>rejection_base_patterns\<close>, which is matched by substring: \<open>know\<close> and \<open>badge\<close> are
  not in the exact-match list and are classified rejection, the one with no rejection
  pattern in it but \<open>no\<close>, the other with none but \<open>bad\<close>.
\<close>

theorem short_negative_words_match_as_substrings:
  "classify uni (asc ''know'') = Some Rejection \<and>
   clean (asc ''know'') \<notin> set rejection_exact_matches \<and>
   asc ''no'' \<in> set rejection_exact_matches \<and>
   contains (asc ''no'') (lower uni (clean (asc ''know''))) \<and>
   \<not> any_in (removeAll (asc ''no'') rejection_patterns) (lower uni (clean (asc ''know''))) \<and>
   classify uni (asc ''badge'') = Some Rejection \<and>
   clean (asc ''badge'') \<notin> set rejection_exact_matches \<and>
   asc ''bad'' \<in> set rejection_exact_matches \<and>
   contains (asc ''bad'') (lower uni (clean (asc ''badge''))) \<and>
   \<not> any_in (removeAll (asc ''bad'') rejection_patterns) (lower uni (clean (asc ''badge'')))"
proof -
  have k: "classify uni (asc ''know'') = Some Rejection"
    by (rule classify_ascii [OF clean_know lower_know special_know categorize_know]) simp
  have b: "classify uni (asc ''badge'') = Some Rejection"
    by (rule classify_ascii [OF clean_badge lower_badge special_badge categorize_badge]) simp
  have e: "asc ''no'' \<in> set rejection_exact_matches" "asc ''bad'' \<in> set rejection_exact_matches"
    unfolding eval_patterns by simp_all
  have c: "contains (asc ''no'') (asc ''know'')" "contains (asc ''bad'') (asc ''badge'')"
    unfolding contains_asc by simp_all
  show ?thesis
    unfolding clean_know lower_know clean_badge lower_badge
    using k b e c exact_know exact_badge only_no_in_know only_bad_in_badge by simp
qed

section \<open>Letter case\<close>

lemma clean_Fine: "clean (asc ''Fine'') = asc ''Fine''" by (simp add: eval_clean)
lemma clean_fine: "clean (asc ''fine'') = asc ''fine''" by (simp add: eval_clean)
lemma lower_Fine: "lower uni (asc ''Fine'') = asc ''fine''" by (simp add: eval_lower)
lemma lower_fine: "lower uni (asc ''fine'') = asc ''fine''" by (simp add: eval_lower)
lemma special_Fine: "\<not> startswith (asc ''Fine'') 60 \<and> \<not> startswith (asc ''Fine'') 91"
  by (simp add: asc_def)
lemma special_fine: "\<not> startswith (asc ''fine'') 60 \<and> \<not> startswith (asc ''fine'') 91"
  by (simp add: asc_def)
lemma categorize_Fine: "categorize (asc ''Fine'') (asc ''fine'') = None"
  unfolding categorize_def eval_patterns by simp
lemma categorize_fine: "categorize (asc ''fine'') (asc ''fine'') = Some Approval"
  unfolding categorize_def eval_patterns by simp

lemma clean_Yes: "clean (asc ''Yes'') = asc ''Yes''" by (simp add: eval_clean)
lemma clean_yes: "clean (asc ''yes'') = asc ''yes''" by (simp add: eval_clean)
lemma lower_Yes: "lower uni (asc ''Yes'') = asc ''yes''" by (simp add: eval_lower)
lemma lower_yes: "lower uni (asc ''yes'') = asc ''yes''" by (simp add: eval_lower)
lemma special_Yes: "\<not> startswith (asc ''Yes'') 60 \<and> \<not> startswith (asc ''Yes'') 91"
  by (simp add: asc_def)
lemma special_yes: "\<not> startswith (asc ''yes'') 60 \<and> \<not> startswith (asc ''yes'') 91"
  by (simp add: asc_def)
lemma categorize_Yes: "categorize (asc ''Yes'') (asc ''yes'') = None"
  unfolding categorize_def eval_patterns by simp
lemma categorize_yes: "categorize (asc ''yes'') (asc ''yes'') = Some Approval"
  unfolding categorize_def eval_patterns by simp

lemma clean_Void: "clean (asc ''Void'') = asc ''Void''" by (simp add: eval_clean)
lemma clean_void: "clean (asc ''void'') = asc ''void''" by (simp add: eval_clean)
lemma lower_Void: "lower uni (asc ''Void'') = asc ''void''" by (simp add: eval_lower)
lemma lower_void: "lower uni (asc ''void'') = asc ''void''" by (simp add: eval_lower)
lemma special_Void: "\<not> startswith (asc ''Void'') 60 \<and> \<not> startswith (asc ''Void'') 91"
  by (simp add: asc_def)
lemma special_void: "\<not> startswith (asc ''void'') 60 \<and> \<not> startswith (asc ''void'') 91"
  by (simp add: asc_def)
lemma categorize_Void: "categorize (asc ''Void'') (asc ''void'') = None"
  unfolding categorize_def eval_patterns by simp
lemma categorize_void: "categorize (asc ''void'') (asc ''void'') = Some Rejection"
  unfolding categorize_def eval_patterns by simp

text \<open>
  C4. Tokens whose cleaned strings differ only in letter case are claimed to be
  classified alike. The substring tests read \<open>token_lower\<close>, but the two exact-match
  tests read \<open>clean_token\<close>: \<open>fine\<close> and \<open>yes\<close> are approval and \<open>void\<close> is rejection,
  while \<open>Fine\<close>, \<open>Yes\<close> and \<open>Void\<close> end in no list.
\<close>

theorem exact_matches_are_case_sensitive:
  "lower uni (clean (asc ''Fine'')) = lower uni (clean (asc ''fine'')) \<and>
   classify uni (asc ''fine'') = Some Approval \<and> classify uni (asc ''Fine'') = None \<and>
   lower uni (clean (asc ''Yes'')) = lower uni (clean (asc ''yes'')) \<and>
   classify uni (asc ''yes'') = Some Approval \<and> classify uni (asc ''Yes'') = None \<and>
   lower uni (clean (asc ''Void'')) = lower uni (clean (asc ''void'')) \<and>
   classify uni (asc ''void'') = Some Rejection \<and> classify uni (asc ''Void'') = None"
proof -
  have "classify uni (asc ''fine'') = Some Approval"
    by (rule classify_ascii [OF clean_fine lower_fine special_fine categorize_fine]) simp
  moreover have "classify uni (asc ''Fine'') = None"
    by (rule classify_ascii [OF clean_Fine lower_Fine special_Fine categorize_Fine]) simp
  moreover have "classify uni (asc ''yes'') = Some Approval"
    by (rule classify_ascii [OF clean_yes lower_yes special_yes categorize_yes]) simp
  moreover have "classify uni (asc ''Yes'') = None"
    by (rule classify_ascii [OF clean_Yes lower_Yes special_Yes categorize_Yes]) simp
  moreover have "classify uni (asc ''void'') = Some Rejection"
    by (rule classify_ascii [OF clean_void lower_void special_void categorize_void]) simp
  moreover have "classify uni (asc ''Void'') = None"
    by (rule classify_ascii [OF clean_Void lower_Void special_Void categorize_Void]) simp
  ultimately show ?thesis
    unfolding clean_Fine clean_fine lower_Fine lower_fine clean_Yes clean_yes lower_Yes lower_yes
      clean_Void clean_void lower_Void lower_void
    by simp
qed

section \<open>From one token to the result lists\<close>

lemma scan_membership:
  "token_ids (find_approval_rejection_tokens uni vocab) = (a, r, p) \<Longrightarrow>
   (i \<in> set a \<longleftrightarrow> 0 \<le> i \<and> i < int (length vocab) \<and> verdict uni (id_to_token vocab) i = Some Approval) \<and>
   (i \<in> set r \<longleftrightarrow> 0 \<le> i \<and> i < int (length vocab) \<and> verdict uni (id_to_token vocab) i = Some Rejection) \<and>
   (i \<in> set p \<longleftrightarrow> 0 \<le> i \<and> i < int (length vocab) \<and> verdict uni (id_to_token vocab) i = Some Pending)"
  unfolding token_ids_scan using int_range_mem [of i "length vocab"] by auto

lemma unclassified_in_no_list:
  assumes "id_to_token vocab i = Some tok" and "classify uni tok = None"
  shows "(case token_ids (find_approval_rejection_tokens uni vocab) of
            (approval_token_ids, rejection_token_ids, pending_token_ids) \<Rightarrow>
              i \<notin> set approval_token_ids \<and> i \<notin> set rejection_token_ids \<and>
              i \<notin> set pending_token_ids)"
proof -
  have "verdict uni (id_to_token vocab) i = None"
    using assms by (simp add: verdict_def)
  then show ?thesis unfolding token_ids_scan by simp
qed

lemma rejected_in_rejection_list:
  assumes "id_to_token vocab i = Some tok" and "classify uni tok = Some Rejection"
    and "0 \<le> i" and "i < int (length vocab)"
  shows "(case token_ids (find_approval_rejection_tokens uni vocab) of
            (approval_token_ids, rejection_token_ids, pending_token_ids) \<Rightarrow>
              i \<in> set rejection_token_ids \<and> i \<notin> set approval_token_ids \<and>
              i \<notin> set pending_token_ids)"
proof -
  have "verdict uni (id_to_token vocab) i = Some Rejection"
    using assms(1,2) by (simp add: verdict_def)
  moreover have "i \<in> set (map int [0..<length vocab])"
    using assms(3,4) by (simp only: int_range_mem)
  ultimately show ?thesis unfolding token_ids_scan by simp
qed

section \<open>The pattern \<open>unqualified\<close>\<close>

lemma lower_unqualified: "lower uni (asc ''unqualified'') = asc ''unqualified''"
  by (simp add: eval_lower)

lemma unqualified_generated:
  "asc ''un'' \<in> set negation_prefixes \<and> asc ''qualified'' \<in> set positive_stems \<and>
   asc ''un'' @ asc ''qualified'' = asc ''unqualified'' \<and>
   asc ''unqualified'' \<notin> set rejection_base_patterns \<and>
   asc ''qualif'' \<in> set approval_base_stems"
  unfolding pattern_defs asc_append asc_mem_iff asc_eq_iff by simp

lemma cross_member:
  "prefix \<in> set P \<Longrightarrow> stem \<in> set S \<Longrightarrow>
   prefix @ stem \<in> set (concat (map (\<lambda>prefix. map (\<lambda>stem. prefix @ stem) S) P))"
  by auto

lemma unqualified_pattern: "asc ''unqualified'' \<in> set rejection_patterns"
proof -
  have "asc ''un'' \<in> set negation_prefixes" and "asc ''qualified'' \<in> set positive_stems"
    using unqualified_generated by simp_all
  then have "asc ''un'' @ asc ''qualified'' \<in>
      set (concat (map (\<lambda>prefix. map (\<lambda>stem. prefix @ stem) positive_stems) negation_prefixes))"
    by (rule cross_member)
  then show ?thesis by (simp add: rejection_patterns_def asc_append)
qed

lemma contains_refl: "contains s s"
proof (cases s)
  case Nil then show ?thesis by simp
next
  case (Cons x xs)
  have "starts_with t t" for t :: "'a list" by (induction t) simp_all
  with Cons show ?thesis by simp
qed

lemma classify_unqualified:
  assumes "clean tok = asc ''unqualified''"
  shows "classify uni tok = Some Rejection"
proof -
  have sp: "\<not> startswith tok 60 \<and> \<not> startswith tok 91"
    using assms by (rule clean_not_special) simp_all
  have "any_in rejection_patterns (asc ''unqualified'')"
    unfolding any_in_def list_ex_iff using unqualified_pattern contains_refl by blast
  then have cat: "categorize (asc ''unqualified'') (asc ''unqualified'') = Some Rejection"
    by (simp add: categorize_def)
  show ?thesis
    by (rule classify_ascii [OF assms lower_unqualified sp cat]) simp
qed

section \<open>The small vocabulary, scanned\<close>

lemma example_lookup:
  "id_to_token example_vocab 0 = Some (asc ''<pad>'')"
  "id_to_token example_vocab 1 = Some (9601 # asc ''unqualified'')"
  "id_to_token example_vocab 2 = Some (9601 # asc ''reviewing'')"
  "id_to_token example_vocab 3 = Some (9601 # asc ''approved'')"
  "id_to_token example_vocab 4 = Some (asc ''a'')"
  "id_to_token example_vocab 5 = Some (asc ''earning'')"
  "id_to_token example_vocab 6 = Some (9601 # asc ''no'')"
  by (simp_all add: id_to_token_def example_vocab_def)

lemma example_range: "map int [0..<length example_vocab] = [0, 1, 2, 3, 4, 5, 6]"
  by (simp add: example_vocab_def upt_rec)

lemma clean_pad: "startswith (asc ''<pad>'') 60"
  by (simp add: asc_def)

lemma clean_unqualified: "clean (9601 # asc ''unqualified'') = asc ''unqualified''"
  by (simp add: eval_clean)

lemma clean_reviewing: "clean (9601 # asc ''reviewing'') = asc ''reviewing''"
  by (simp add: eval_clean)

lemma clean_approved: "clean (9601 # asc ''approved'') = asc ''approved''"
  by (simp add: eval_clean)

lemma clean_a: "length (clean (asc ''a'')) < 2"
  by (simp add: eval_clean)

lemma clean_earning: "clean (asc ''earning'') = asc ''earning''"
  by (simp add: eval_clean)

lemma clean_no: "clean (9601 # asc ''no'') = asc ''no''"
  by (simp add: eval_clean)

lemma lower_reviewing: "lower uni (asc ''reviewing'') = asc ''reviewing''"
  by (simp add: eval_lower)

lemma lower_approved: "lower uni (asc ''approved'') = asc ''approved''"
  by (simp add: eval_lower)

lemma lower_earning: "lower uni (asc ''earning'') = asc ''earning''"
  by (simp add: eval_lower)

lemma lower_no: "lower uni (asc ''no'') = asc ''no''"
  by (simp add: eval_lower)

lemma marker_not_special: "\<not> startswith (9601 # s) 60 \<and> \<not> startswith (9601 # s) 91"
  by simp

lemma special_earning: "\<not> startswith (asc ''earning'') 60 \<and> \<not> startswith (asc ''earning'') 91"
  by (simp add: asc_def)

lemma categorize_reviewing: "categorize (asc ''reviewing'') (asc ''reviewing'') = Some Pending"
  unfolding categorize_def eval_patterns by simp

lemma categorize_approved: "categorize (asc ''approved'') (asc ''approved'') = Some Approval"
  unfolding categorize_def eval_patterns by simp

lemma categorize_no: "categorize (asc ''no'') (asc ''no'') = Some Rejection"
  unfolding categorize_def eval_patterns by simp

lemma earning_checks:
  "asc ''earning'' \<notin> set rejection_exact_matches"
  "\<not> any_in rejection_patterns (asc ''earning'')"
  "\<not> any_in pending_patterns (asc ''earning'')"
  "asc ''earning'' \<notin> set approval_exact_matches"
  "any_in approval_base_stems (asc ''earning'')"
  "any_in negated_indicators (asc ''earning'')"
  unfolding eval_patterns by simp_all

lemma categorize_earning: "categorize (asc ''earning'') (asc ''earning'') = None"
  using earning_checks by (simp add: categorize_def)

lemma example_classify:
  "classify uni (asc ''<pad>'') = None"
  "classify uni (9601 # asc ''unqualified'') = Some Rejection"
  "classify uni (9601 # asc ''reviewing'') = Some Pending"
  "classify uni (9601 # asc ''approved'') = Some Approval"
  "classify uni (asc ''a'') = None"
  "classify uni (asc ''earning'') = None"
  "classify uni (9601 # asc ''no'') = Some Rejection"
proof -
  show "classify uni (asc ''<pad>'') = None"
    using clean_pad by (simp add: classify_skipped)
  show "classify uni (9601 # asc ''unqualified'') = Some Rejection"
    using clean_unqualified by (rule classify_unqualified)
  show "classify uni (9601 # asc ''reviewing'') = Some Pending"
    by (rule classify_ascii [OF clean_reviewing lower_reviewing marker_not_special categorize_reviewing]) simp
  show "classify uni (9601 # asc ''approved'') = Some Approval"
    by (rule classify_ascii [OF clean_approved lower_approved marker_not_special categorize_approved]) simp
  show "classify uni (asc ''a'') = None"
    by (rule classify_skipped) (simp add: clean_a)
  show "classify uni (asc ''earning'') = None"
    by (rule classify_ascii [OF clean_earning lower_earning special_earning categorize_earning]) simp
  show "classify uni (9601 # asc ''no'') = Some Rejection"
    by (rule classify_ascii [OF clean_no lower_no marker_not_special categorize_no]) simp
qed

lemma example_scan:
  "find_approval_rejection_tokens uni example_vocab =
     ([(3, 9601 # asc ''approved'', asc ''approved'')],
      [(1, 9601 # asc ''unqualified'', asc ''unqualified''), (6, 9601 # asc ''no'', asc ''no'')],
      [(2, 9601 # asc ''reviewing'', asc ''reviewing'')])"
  unfolding find_approval_rejection_tokens_def foldl_scan_step example_range
  by (simp add: bucket_def example_lookup example_classify clean_unqualified clean_reviewing
      clean_approved clean_no)

lemma example_ids:
  "token_ids (find_approval_rejection_tokens uni example_vocab) = ([3], [1, 6], [2])"
  by (simp add: example_scan token_ids_def)

section \<open>The skip test\<close>

text \<open>
  C8. A vocabulary entry whose raw string starts with \<open><\<close> or \<open>[\<close>, or whose cleaned
  string is shorter than two code points, ends in none of the three lists, whatever its
  text; a cleaned string of exactly two code points passes the test and goes on to the
  pattern checks. The entry is the token the scan reads under id \<open>i\<close>.
\<close>

theorem skip_filter:
  assumes "id_to_token vocab i = Some tok"
  shows "(startswith tok 60 \<or> startswith tok 91 \<or> length (clean tok) < 2 \<longrightarrow>
            classify uni tok = None \<and>
            (case token_ids (find_approval_rejection_tokens uni vocab) of
               (approval_token_ids, rejection_token_ids, pending_token_ids) \<Rightarrow>
                 i \<notin> set approval_token_ids \<and> i \<notin> set rejection_token_ids \<and>
                 i \<notin> set pending_token_ids)) \<and>
         (\<not> startswith tok 60 \<and> \<not> startswith tok 91 \<and> length (clean tok) = 2 \<longrightarrow>
            classify uni tok = categorize (clean tok) (lower uni (clean tok)))"
proof (intro conjI impI)
  assume s: "startswith tok 60 \<or> startswith tok 91 \<or> length (clean tok) < 2"
  then show n: "classify uni tok = None" by (rule classify_skipped)
  show "(case token_ids (find_approval_rejection_tokens uni vocab) of
               (approval_token_ids, rejection_token_ids, pending_token_ids) \<Rightarrow>
                 i \<notin> set approval_token_ids \<and> i \<notin> set rejection_token_ids \<and>
                 i \<notin> set pending_token_ids)"
    using assms n by (rule unclassified_in_no_list)
next
  assume "\<not> startswith tok 60 \<and> \<not> startswith tok 91 \<and> length (clean tok) = 2"
  then show "classify uni tok = categorize (clean tok) (lower uni (clean tok))"
    by (simp add: classify_kept)
qed

theorem skip_filter_witness:
  "id_to_token example_vocab 0 = Some (asc ''<pad>'') \<and>
   startswith (asc ''<pad>'') 60 \<and>
   classify id (asc ''<pad>'') = None \<and>
   id_to_token example_vocab 4 = Some (asc ''a'') \<and>
   length (clean (asc ''a'')) < 2 \<and>
   classify id (asc ''a'') = None \<and>
   token_ids (find_approval_rejection_tokens id example_vocab) = ([3], [1, 6], [2]) \<and>
   id_to_token example_vocab 6 = Some (9601 # asc ''no'') \<and>
   length (clean (9601 # asc ''no'')) = 2 \<and>
   classify id (9601 # asc ''no'') = categorize (asc ''no'') (asc ''no'') \<and>
   categorize (asc ''no'') (asc ''no'') = Some Rejection"
proof -
  have l: "length (clean (9601 # asc ''no'')) = 2"
    unfolding clean_no by (simp add: asc_def)
  show ?thesis
    using skip_filter [OF example_lookup(1), of id]
      skip_filter [OF example_lookup(5), of id]
      skip_filter [OF example_lookup(7), of id]
      example_lookup clean_pad clean_a l marker_not_special [of "asc ''no''"]
      example_ids [of id] categorize_no
    by (simp add: clean_no lower_no)
qed

section \<open>Negated approval stems\<close>

text \<open>
  C6. A token that passes the skip test, matches no rejection pattern (exact or
  substring) and no pending pattern, is not an approval exact-match word, and has in
  its lower-cased form both an approval stem and one of the negation indicators
  \<open>un\<close>, \<open>in\<close>, \<open>dis\<close>, \<open>non\<close>, \<open>im\<close>, \<open>not\<close>, \<open>never\<close>, ends in none of the three lists.
\<close>

theorem negated_stem_unclassified:
  assumes "id_to_token vocab i = Some tok"
    and "\<not> (length (clean tok) < 2 \<or> startswith tok 60 \<or> startswith tok 91)"
    and "clean tok \<notin> set rejection_exact_matches"
    and "\<not> any_in rejection_patterns (lower uni (clean tok))"
    and "\<not> any_in pending_patterns (lower uni (clean tok))"
    and "clean tok \<notin> set approval_exact_matches"
    and "any_in approval_base_stems (lower uni (clean tok))"
    and "any_in negated_indicators (lower uni (clean tok))"
  shows "classify uni tok = None \<and>
         (case token_ids (find_approval_rejection_tokens uni vocab) of
            (approval_token_ids, rejection_token_ids, pending_token_ids) \<Rightarrow>
              i \<notin> set approval_token_ids \<and> i \<notin> set rejection_token_ids \<and>
              i \<notin> set pending_token_ids)"
proof -
  have "classify uni tok = categorize (clean tok) (lower uni (clean tok))"
    using assms(2) by (simp add: classify_kept)
  also have "\<dots> = None"
    using assms(3-8) by (simp add: categorize_def)
  finally have n: "classify uni tok = None" .
  show ?thesis using n unclassified_in_no_list [OF assms(1) n] by (rule conjI)
qed

theorem negated_stem_unclassified_witness:
  "id_to_token example_vocab 5 = Some (asc ''earning'') \<and>
   \<not> (length (clean (asc ''earning'')) < 2 \<or> startswith (asc ''earning'') 60 \<or>
      startswith (asc ''earning'') 91) \<and>
   clean (asc ''earning'') \<notin> set rejection_exact_matches \<and>
   \<not> any_in rejection_patterns (lower id (clean (asc ''earning''))) \<and>
   \<not> any_in pending_patterns (lower id (clean (asc ''earning''))) \<and>
   clean (asc ''earning'') \<notin> set approval_exact_matches \<and>
   any_in approval_base_stems (lower id (clean (asc ''earning''))) \<and>
   any_in negated_indicators (lower id (clean (asc ''earning''))) \<and>
   contains (asc ''earn'') (asc ''earning'') \<and> contains (asc ''in'') (asc ''earning'') \<and>
   classify id (asc ''earning'') = None \<and>
   token_ids (find_approval_rejection_tokens id example_vocab) = ([3], [1, 6], [2])"
proof -
  have h2: "\<not> (length (clean (asc ''earning'')) < 2 \<or> startswith (asc ''earning'') 60 \<or>
      startswith (asc ''earning'') 91)"
    unfolding clean_earning using special_earning by (simp add: asc_def)
  have h3: "clean (asc ''earning'') \<notin> set rejection_exact_matches"
    and h4: "\<not> any_in rejection_patterns (lower id (clean (asc ''earning'')))"
    and h5: "\<not> any_in pending_patterns (lower id (clean (asc ''earning'')))"
    and h6: "clean (asc ''earning'') \<notin> set approval_exact_matches"
    and h7: "any_in approval_base_stems (lower id (clean (asc ''earning'')))"
    and h8: "any_in negated_indicators (lower id (clean (asc ''earning'')))"
    unfolding clean_earning lower_earning by (rule earning_checks)+
  have c: "contains (asc ''earn'') (asc ''earning'')" "contains (asc ''in'') (asc ''earning'')"
    unfolding contains_asc by simp_all
  have "classify id (asc ''earning'') = None"
    using negated_stem_unclassified [OF example_lookup(6) h2 h3 h4 h5 h6 h7 h8] by (rule conjunct1)
  then show ?thesis
    using example_lookup(6) h2 h3 h4 h5 h6 h7 h8 c example_ids [of id] by simp
qed

section \<open>Rejection before approval\<close>

text \<open>
  C7. A token whose cleaned form is \<open>unqualified\<close> is classified rejection and is in
  neither other list: the pattern is the negation prefix \<open>un\<close> followed by the positive
  stem \<open>qualified\<close>, and the rejection check runs before the approval check, although the
  lower-cased token also contains the approval stem \<open>qualif\<close>.
\<close>

theorem unqualified_is_rejection:
  assumes "id_to_token vocab i = Some tok" and "0 \<le> i" and "i < int (length vocab)"
    and "clean tok = asc ''unqualified''"
  shows "classify uni tok = Some Rejection \<and>
         (case token_ids (find_approval_rejection_tokens uni vocab) of
            (approval_token_ids, rejection_token_ids, pending_token_ids) \<Rightarrow>
              i \<in> set rejection_token_ids \<and> i \<notin> set approval_token_ids \<and>
              i \<notin> set pending_token_ids) \<and>
         asc ''un'' \<in> set negation_prefixes \<and> asc ''qualified'' \<in> set positive_stems \<and>
         asc ''un'' @ asc ''qualified'' = clean tok \<and>
         clean tok \<in> set rejection_patterns \<and>
         asc ''qualif'' \<in> set approval_base_stems \<and>
         contains (asc ''qualif'') (lower uni (clean tok))"
proof -
  have c: "classify uni tok = Some Rejection"
    using assms(4) by (rule classify_unqualified)
  have q: "contains (asc ''qualif'') (asc ''unqualified'')"
    unfolding contains_asc by simp
  show ?thesis
    using c rejected_in_rejection_list [OF assms(1) c assms(2,3)] unqualified_generated
      unqualified_pattern q
    by (simp add: assms(4) lower_unqualified)
qed

theorem unqualified_is_rejection_witness:
  "id_to_token example_vocab 1 = Some (9601 # asc ''unqualified'') \<and>
   (0::int) \<le> 1 \<and> 1 < int (length example_vocab) \<and>
   clean (9601 # asc ''unqualified'') = asc ''unqualified'' \<and>
   classify id (9601 # asc ''unqualified'') = Some Rejection \<and>
   token_ids (find_approval_rejection_tokens id example_vocab) = ([3], [1, 6], [2]) \<and>
   asc ''unqualified'' \<in> set rejection_patterns \<and>
   contains (asc ''qualif'') (lower id (asc ''unqualified''))"
proof -
  have b: "(0::int) \<le> 1" "1 < int (length example_vocab)"
    by (simp_all add: example_vocab_def)
  show ?thesis
    using unqualified_is_rejection [OF example_lookup(2) b clean_unqualified, of id]
      example_lookup(2) b clean_unqualified example_ids [of id]
    by simp
qed

section \<open>Runs of the script\<close>

text \<open>
  A run either regenerates (no cache file, or one that does not load and is then
  removed), or takes the id lists from the cache, or ends in the handler when the
  removal raises; only the first binds the three token lists the detail block reads.
\<close>

lemma np_load_savez: "np_load (np_savez i) = Some i"
  by (cases i) (simp add: np_savez_def)

lemma os_remove_ok:
  "cache_removable fs \<Longrightarrow> cache_file fs \<noteq> Some Directory \<Longrightarrow>
   os_remove fs = Inr (fs\<lparr>cache_file := None\<rparr>)"
  by (simp add: os_remove_def)

lemma cache_lookup_unreadable:
  "cache_file fs = Some c \<Longrightarrow> np_load c = None \<Longrightarrow> cache_removable fs \<Longrightarrow> c \<noteq> Directory \<Longrightarrow>
   cache_lookup fs = (Inr None, fs\<lparr>cache_file := None\<rparr>)"
  by (simp add: cache_lookup_def os_remove_def)

lemma cache_lookup_stuck:
  "cache_file fs = Some c \<Longrightarrow> np_load c = None \<Longrightarrow> \<not> (cache_removable fs \<and> c \<noteq> Directory) \<Longrightarrow>
   cache_lookup fs = (Inl OSError, fs)"
  by (auto simp: cache_lookup_def os_remove_def)

lemma cache_lookup_saved:
  "cache_file fs = Some (np_savez i) \<Longrightarrow> cache_lookup fs = (Inr (Some i), fs)"
  by (simp add: cache_lookup_def np_load_savez)

lemma cache_lookup_None:
  "fst (cache_lookup fs) = Inr None \<Longrightarrow>
   cache_lookup fs = (Inr None, fs\<lparr>cache_file := None\<rparr>)"
  by (cases fs) (auto simp: cache_lookup_def os_remove_def split: option.splits if_splits)

lemma cache_lookup_Some:
  "fst (cache_lookup fs) = Inr (Some i) \<Longrightarrow> cache_lookup fs = (Inr (Some i), fs)"
  by (auto simp: cache_lookup_def os_remove_def split: option.splits if_splits)

lemma cache_lookup_error:
  "fst (cache_lookup fs) = Inl err \<longleftrightarrow>
     err = OSError \<and>
     (\<exists>c. cache_file fs = Some c \<and> np_load c = None \<and> \<not> (cache_removable fs \<and> c \<noteq> Directory))"
  by (auto simp: cache_lookup_def os_remove_def split: option.splits if_splits)

lemma run_regenerates:
  assumes "data_path_defined e" and "pretrained_vocab e = Some vocab"
    and "fst (cache_lookup fs) = Inr None"
  shows "run e fs =
     (Inr (token_ids (find_approval_rejection_tokens (unicode_lower e) vocab)),
      fs\<lparr>cache_file :=
           Some (np_savez (token_ids (find_approval_rejection_tokens (unicode_lower e) vocab))),
         detail_file :=
           Some (case detail_file fs of
                   None \<Rightarrow> detail_listing (find_approval_rejection_tokens (unicode_lower e) vocab)
                 | Some d \<Rightarrow> d)\<rparr>)"
  using assms cache_lookup_None [OF assms(3)]
  by (cases "detail_file fs") (simp_all add: run_def regenerate_def audit_dump_def Let_def)

lemma run_cached:
  assumes "data_path_defined e" and "pretrained_vocab e = Some vocab"
    and "fst (cache_lookup fs) = Inr (Some i)"
  shows "run e fs =
     (case detail_file fs of
        None \<Rightarrow> (Inl (NameError ''approval_tokens''),
                 fs\<lparr>detail_file := Some [Title, Rule, Section Approval]\<rparr>)
      | Some d \<Rightarrow> (Inr i, fs))"
  using assms cache_lookup_Some [OF assms(3)]
  by (cases "detail_file fs") (simp_all add: run_def audit_dump_def)

lemma run_stuck:
  assumes "data_path_defined e" and "pretrained_vocab e = Some vocab"
    and "fst (cache_lookup fs) = Inl err"
  shows "run e fs = (Inl OSError, fs)"
proof -
  have "err = OSError" using assms(3) by (simp add: cache_lookup_error)
  moreover have "snd (cache_lookup fs) = fs"
    using assms(3) by (auto simp: cache_lookup_def os_remove_def split: option.splits if_splits)
  ultimately have "cache_lookup fs = (Inl OSError, fs)"
    using assms(3) by (cases "cache_lookup fs") simp
  then show ?thesis using assms(1,2) by (simp add: run_def)
qed

lemma run_fails_iff:
  "(\<exists>err. fst (run e fs) = Inl err) \<longleftrightarrow>
     \<not> data_path_defined e \<or> pretrained_vocab e = None \<or>
     (\<exists>c. cache_file fs = Some c \<and> np_load c = None \<and> \<not> (cache_removable fs \<and> c \<noteq> Directory)) \<or>
     ((\<exists>i. fst (cache_lookup fs) = Inr (Some i)) \<and> detail_file fs = None)"
proof (cases "data_path_defined e")
  case False
  then show ?thesis by (simp add: run_def)
next
  case dp: True
  show ?thesis
  proof (cases "pretrained_vocab e")
    case None
    with dp show ?thesis by (simp add: run_def)
  next
    case v: (Some vocab)
    show ?thesis
    proof (cases "fst (cache_lookup fs)")
      case (Inl err)
      from run_stuck [OF dp v Inl] Inl cache_lookup_error [of fs err]
      show ?thesis by auto
    next
      case (Inr loaded)
      have n: "\<not> (\<exists>c. cache_file fs = Some c \<and> np_load c = None \<and>
                  \<not> (cache_removable fs \<and> c \<noteq> Directory))"
        using Inr cache_lookup_error [of fs OSError] by auto
      show ?thesis
      proof (cases loaded)
        case None
        with Inr have "fst (cache_lookup fs) = Inr None" by simp
        from run_regenerates [OF dp v this] dp v n this show ?thesis by simp
      next
        case (Some i)
        with Inr have l: "fst (cache_lookup fs) = Inr (Some i)" by simp
        then have ex: "\<exists>i. fst (cache_lookup fs) = Inr (Some i)" by blast
        note r = run_cached [OF dp v l]
        show ?thesis
        proof (cases "detail_file fs")
          case None
          with r have "fst (run e fs) = Inl (NameError ''approval_tokens'')" by simp
          then have "\<exists>err. fst (run e fs) = Inl err" by blast
          with ex None show ?thesis by blast
        next
          case (Some d)
          with r have "fst (run e fs) = Inr i" by simp
          then have "\<not> (\<exists>err. fst (run e fs) = Inl err)" by simp
          with dp v n Some show ?thesis by simp
        qed
      qed
    qed
  qed
qed

section \<open>An unreadable cache\<close>

text \<open>
  C5, as claimed: whenever the cache file exists and loading the three arrays from it
  fails, the failure is caught, the file is deleted and the run regenerates. That
  fails when the cache path is a directory: \<open>np.load\<close> raises, the handler calls
  \<open>os.remove\<close>, which raises in turn, and the run ends with the path untouched.
\<close>

theorem cache_directory_not_recovered:
  "cache_file \<lparr>cache_file = Some Directory, cache_removable = True, detail_file = None\<rparr> =
     Some Directory \<and>
   np_load Directory = None \<and>
   data_path_defined example_env \<and> pretrained_vocab example_env = Some example_vocab \<and>
   cache_lookup \<lparr>cache_file = Some Directory, cache_removable = True, detail_file = None\<rparr> =
     (Inl OSError, \<lparr>cache_file = Some Directory, cache_removable = True, detail_file = None\<rparr>) \<and>
   run example_env \<lparr>cache_file = Some Directory, cache_removable = True, detail_file = None\<rparr> =
     (Inl OSError, \<lparr>cache_file = Some Directory, cache_removable = True, detail_file = None\<rparr>)"
  by (simp add: example_env_def run_def cache_lookup_def os_remove_def)

text \<open>
  C5, amended. If the cache file exists, loading the three arrays from it fails, and
  \<open>os.remove\<close> can delete it (the process may unlink the path and it is no directory),
  the failure is caught and the file deleted, and the run goes on to a full scan of
  the vocabulary and writes a fresh cache. No other failure is recovered from: a run
  ends in an error exactly when \<open>DATA_PATH\<close> is unbound, the tokenizer does not load,
  the removal in the handler raises, or the detail block reads the unbound token lists.
\<close>

theorem cache_failure_recovered:
  assumes "data_path_defined e" and "pretrained_vocab e = Some vocab"
    and "cache_file fs = Some c" and "np_load c = None"
    and "cache_removable fs" and "c \<noteq> Directory"
  shows "os_remove fs = Inr (fs\<lparr>cache_file := None\<rparr>) \<and>
         cache_lookup fs = (Inr None, fs\<lparr>cache_file := None\<rparr>) \<and>
         run e fs =
           (Inr (token_ids (find_approval_rejection_tokens (unicode_lower e) vocab)),
            fs\<lparr>cache_file :=
                 Some (np_savez (token_ids (find_approval_rejection_tokens (unicode_lower e) vocab))),
               detail_file :=
                 Some (case detail_file fs of
                         None \<Rightarrow> detail_listing (find_approval_rejection_tokens (unicode_lower e) vocab)
                       | Some d \<Rightarrow> d)\<rparr>) \<and>
         (\<forall>e' fs'. (\<exists>err. fst (run e' fs') = Inl err) \<longleftrightarrow>
              \<not> data_path_defined e' \<or> pretrained_vocab e' = None \<or>
              (\<exists>c'. cache_file fs' = Some c' \<and> np_load c' = None \<and>
                    \<not> (cache_removable fs' \<and> c' \<noteq> Directory)) \<or>
              ((\<exists>i. fst (cache_lookup fs') = Inr (Some i)) \<and> detail_file fs' = None))"
proof -
  have o: "os_remove fs = Inr (fs\<lparr>cache_file := None\<rparr>)"
    using assms(3,5,6) by (simp add: os_remove_def)
  have l: "cache_lookup fs = (Inr None, fs\<lparr>cache_file := None\<rparr>)"
    using assms(3-6) by (rule cache_lookup_unreadable)
  then have "fst (cache_lookup fs) = Inr None" by simp
  from run_regenerates [OF assms(1,2) this] o l run_fails_iff show ?thesis by blast
qed

theorem cache_failure_recovered_witness:
  "data_path_defined example_env \<and> pretrained_vocab example_env = Some example_vocab \<and>
   cache_file \<lparr>cache_file = Some Unreadable, cache_removable = True, detail_file = None\<rparr> =
     Some Unreadable \<and>
   np_load Unreadable = None \<and>
   cache_removable \<lparr>cache_file = Some Unreadable, cache_removable = True, detail_file = None\<rparr> \<and>
   Unreadable \<noteq> Directory \<and>
   cache_lookup \<lparr>cache_file = Some Unreadable, cache_removable = True, detail_file = None\<rparr> =
     (Inr None, \<lparr>cache_file = None, cache_removable = True, detail_file = None\<rparr>) \<and>
   run example_env \<lparr>cache_file = Some Unreadable, cache_removable = True, detail_file = None\<rparr> =
     (Inr ([3], [1, 6], [2]),
      \<lparr>cache_file = Some (Arrays [(''approval_ids'', [3]), (''rejection_ids'', [1, 6]),
                                  (''pending_ids'', [2])]),
       cache_removable = True,
       detail_file = Some
         [Title, Rule, Section Approval,
          Entry 3 (9601 # asc ''approved'') (asc ''approved''),
          Section Rejection,
          Entry 1 (9601 # asc ''unqualified'') (asc ''unqualified''),
          Entry 6 (9601 # asc ''no'') (asc ''no''),
          Section Pending,
          Entry 2 (9601 # asc ''reviewing'') (asc ''reviewing'')]\<rparr>)"
proof -
  let ?fs = "\<lparr>cache_file = Some Unreadable, cache_removable = True, detail_file = None\<rparr>"
  have h: "data_path_defined example_env" "pretrained_vocab example_env = Some example_vocab"
    "cache_file ?fs = Some Unreadable" "np_load Unreadable = None"
    "cache_removable ?fs" "Unreadable \<noteq> Directory"
    by (simp_all add: example_env_def)
  have u: "unicode_lower example_env = id" by (simp add: example_env_def)
  show ?thesis
    using cache_failure_recovered [OF h] h
    by (simp add: u example_scan token_ids_def np_savez_def detail_listing_def entries_def)
qed

section \<open>The cache read back\<close>

text \<open>
  C9. A run that regenerates writes the id lists of its scan to the cache; the next run
  over the same vocabulary loads them from that file and ends with the same three
  lists as the scan from scratch.
\<close>

theorem cache_round_trip:
  assumes "data_path_defined e" and "pretrained_vocab e = Some vocab"
    and "fst (cache_lookup fs) = Inr None"
  shows "np_load (np_savez (token_ids (find_approval_rejection_tokens (unicode_lower e) vocab))) =
           Some (token_ids (find_approval_rejection_tokens (unicode_lower e) vocab)) \<and>
         fst (run e fs) =
           Inr (token_ids (find_approval_rejection_tokens (unicode_lower e) vocab)) \<and>
         cache_lookup (snd (run e fs)) =
           (Inr (Some (token_ids (find_approval_rejection_tokens (unicode_lower e) vocab))),
            snd (run e fs)) \<and>
         run e (snd (run e fs)) =
           (Inr (token_ids (find_approval_rejection_tokens (unicode_lower e) vocab)),
            snd (run e fs))"
proof -
  let ?i = "token_ids (find_approval_rejection_tokens (unicode_lower e) vocab)"
  let ?fs = "snd (run e fs)"
  note r = run_regenerates [OF assms]
  have c: "cache_file ?fs = Some (np_savez ?i)" by (simp add: r)
  have d: "detail_file ?fs \<noteq> None" by (simp add: r)
  have l: "cache_lookup ?fs = (Inr (Some ?i), ?fs)" using c by (rule cache_lookup_saved)
  then have "fst (cache_lookup ?fs) = Inr (Some ?i)" by simp
  from run_cached [OF assms(1,2) this] d have "run e ?fs = (Inr ?i, ?fs)" by auto
  with l show ?thesis by (simp add: np_load_savez r)
qed

theorem cache_round_trip_witness:
  "data_path_defined example_env \<and> pretrained_vocab example_env = Some example_vocab \<and>
   fst (cache_lookup \<lparr>cache_file = None, cache_removable = True, detail_file = None\<rparr>) = Inr None \<and>
   fst (run example_env \<lparr>cache_file = None, cache_removable = True, detail_file = None\<rparr>) =
     Inr ([3], [1, 6], [2]) \<and>
   cache_file (snd (run example_env \<lparr>cache_file = None, cache_removable = True, detail_file = None\<rparr>)) =
     Some (Arrays [(''approval_ids'', [3]), (''rejection_ids'', [1, 6]), (''pending_ids'', [2])]) \<and>
   fst (run example_env
          (snd (run example_env \<lparr>cache_file = None, cache_removable = True, detail_file = None\<rparr>))) =
     Inr ([3], [1, 6], [2])"
proof -
  let ?fs = "\<lparr>cache_file = None, cache_removable = True, detail_file = None\<rparr>"
  have h: "data_path_defined example_env" "pretrained_vocab example_env = Some example_vocab"
    "fst (cache_lookup ?fs) = Inr None"
    by (simp_all add: example_env_def cache_lookup_def)
  have u: "unicode_lower example_env = id" by (simp add: example_env_def)
  have c: "cache_file (snd (run example_env ?fs)) =
     Some (Arrays [(''approval_ids'', [3]), (''rejection_ids'', [1, 6]), (''pending_ids'', [2])])"
    by (simp add: run_regenerates [OF h] u example_ids np_savez_def)
  show ?thesis
    using cache_round_trip [OF h] h c by (simp add: u example_ids)
qed

section \<open>The detail file after a cache hit\<close>

text \<open>
  C3. Every run that finds no detail file is claimed to complete and to write the
  full listing, also when the id lists came from a valid cache. On that path the
  three token lists are never bound: with the cache of the small vocabulary in place
  and no detail file, the run ends in \<open>NameError\<close> and leaves a detail file holding the
  two header lines and the first section heading only.
\<close>

theorem detail_file_after_cache_hit:
  "run example_env
     \<lparr>cache_file = Some (np_savez ([3], [1, 6], [2])), cache_removable = True, detail_file = None\<rparr> =
     (Inl (NameError ''approval_tokens''),
      \<lparr>cache_file = Some (np_savez ([3], [1, 6], [2])), cache_removable = True,
       detail_file = Some [Title, Rule, Section Approval]\<rparr>) \<and>
   np_load (np_savez ([3], [1, 6], [2])) = Some ([3], [1, 6], [2]) \<and>
   token_ids (find_approval_rejection_tokens (unicode_lower example_env) example_vocab) =
     ([3], [1, 6], [2])"
proof -
  let ?fs = "\<lparr>cache_file = Some (np_savez ([3], [1, 6], [2])), cache_removable = True,
              detail_file = None\<rparr>"
  have "cache_lookup ?fs = (Inr (Some ([3], [1, 6], [2])), ?fs)"
    by (rule cache_lookup_saved) simp
  then have "fst (cache_lookup ?fs) = Inr (Some ([3], [1, 6], [2]))" by simp
  from run_cached [OF _ _ this, of example_env example_vocab]
  show ?thesis by (simp add: example_env_def np_load_savez example_ids)
qed

end
